theory Spec2Isabelle
  imports Main
begin

section \<open>JavaScript values seen by the accessibilityCheck handler\<close>

text \<open>
  The handler of the \<open>accessibilityCheck\<close> tool inspects values it did not create: the
  exports of the modules it loads, the component's \<open>propTypes\<close> and the supplied \<open>props\<close>.
  They are modelled as a small universe of JavaScript values with the operators the handler
  applies to them: truthiness (\<open>||\<close>, \<open>!\<close>, \<open>if\<close>), \<open>typeof\<close>, property read, \<open>in\<close> and
  \<open>Object.keys\<close>. An object is the list of its own enumerable string-keyed properties in
  creation order. A function value carries its own properties too (\<open>propTypes\<close> is one).
  What is thrown is either a JavaScript \<open>Error\<close> with its message, the form the handler
  itself throws (\<open>throw new Error(...)\<close>), or any other value: \<open>throw\<close> and a rejected
  promise accept every value, \<open>null\<close> and \<open>undefined\<close> among them.
\<close>

datatype fn_kind =
    Component_fn string
  | PropType_validator bool
  | Library_fn string

datatype jsval =
    JUndefined
  | JNull
  | JBool bool
  | JNum int
  | JStr string
  | JObj "(string \<times> jsval) list"
  | JFun fn_kind "(string \<times> jsval) list"

datatype error =
    Error string
  | Thrown jsval

fun truthy :: "jsval \<Rightarrow> bool" where
  "truthy JUndefined = False"
| "truthy JNull = False"
| "truthy (JBool b) = b"
| "truthy (JNum n) = (n \<noteq> 0)"
| "truthy (JStr s) = (s \<noteq> [])"
| "truthy (JObj _) = True"
| "truthy (JFun _ _) = True"

fun typeof :: "jsval \<Rightarrow> string" where
  "typeof JUndefined = ''undefined''"
| "typeof JNull = ''object''"
| "typeof (JBool _) = ''boolean''"
| "typeof (JNum _) = ''number''"
| "typeof (JStr _) = ''string''"
| "typeof (JObj _) = ''object''"
| "typeof (JFun _ _) = ''function''"

definition js_or :: "jsval \<Rightarrow> jsval \<Rightarrow> jsval" where
  "js_or a b = (if truthy a then a else b)"

definition lookup_own :: "(string \<times> jsval) list \<Rightarrow> string \<Rightarrow> jsval" where
  "lookup_own kvs k = (case map_of kvs k of None \<Rightarrow> JUndefined | Some v \<Rightarrow> v)"

text \<open>
  \<open>v.k\<close> for one of the names the handler reads (\<open>default\<close>, \<open>propTypes\<close>, \<open>MemoryRouter\<close>,
  \<open>ThemeProvider\<close>, \<open>createTheme\<close>, and \<open>message\<close> of a thrown value that is not an
  \<open>Error\<close>), none of which the prototype of an object, a function or a primitive defines:
  reading from \<open>undefined\<close> or \<open>null\<close> throws a TypeError, a primitive has no such property.
\<close>

fun js_get :: "jsval \<Rightarrow> string \<Rightarrow> error + jsval" where
  "js_get JUndefined k =
     Inl (Error (''Cannot read properties of undefined (reading '' @ [CHR 0x27] @ k @ [CHR 0x27] @ '')''))"
| "js_get JNull k =
     Inl (Error (''Cannot read properties of null (reading '' @ [CHR 0x27] @ k @ [CHR 0x27] @ '')''))"
| "js_get (JObj kvs) k = Inr (lookup_own kvs k)"
| "js_get (JFun _ kvs) k = Inr (lookup_own kvs k)"
| "js_get _ k = Inr JUndefined"

subsection \<open>Decimal numerals\<close>

definition digit_char :: "nat \<Rightarrow> char" where
  "digit_char d =
     (if d = 0 then CHR ''0'' else if d = 1 then CHR ''1'' else if d = 2 then CHR ''2''
      else if d = 3 then CHR ''3'' else if d = 4 then CHR ''4'' else if d = 5 then CHR ''5''
      else if d = 6 then CHR ''6'' else if d = 7 then CHR ''7'' else if d = 8 then CHR ''8''
      else CHR ''9'')"

fun decimal :: "nat \<Rightarrow> string" where
  "decimal n = (if n < 10 then [digit_char n] else decimal (n div 10) @ [digit_char (n mod 10)])"

declare decimal.simps [simp del]

definition is_digit :: "char \<Rightarrow> bool" where
  "is_digit c = (c \<in> set ''0123456789'')"

definition digit_value :: "char \<Rightarrow> nat" where
  "digit_value c = of_char c - 48"

definition nat_of_digits :: "string \<Rightarrow> nat" where
  "nat_of_digits s = foldl (\<lambda>n c. 10 * n + digit_value c) 0 s"

subsection \<open>Own keys and the \<open>in\<close> operator\<close>

text \<open>
  \<open>Object.keys\<close> lists the own enumerable string keys: first those that are array indices
  (canonical decimal numerals up to \<open>2^32 - 2\<close>) in ascending numeric order, then the others
  in creation order. On a string it lists the positions of its characters, on any other
  primitive nothing.
\<close>

definition is_array_index :: "string \<Rightarrow> bool" where
  "is_array_index s =
     (s \<noteq> [] \<and> list_all is_digit s \<and> (s = ''0'' \<or> hd s \<noteq> CHR ''0'')
      \<and> nat_of_digits s \<le> 4294967294)"

definition own_keys :: "(string \<times> jsval) list \<Rightarrow> string list" where
  "own_keys kvs =
     sort_key nat_of_digits (filter is_array_index (map fst kvs))
     @ filter (\<lambda>k. \<not> is_array_index k) (map fst kvs)"

fun object_keys :: "jsval \<Rightarrow> string list" where
  "object_keys (JObj kvs) = own_keys kvs"
| "object_keys (JFun _ kvs) = own_keys kvs"
| "object_keys (JStr s) = map decimal [0..<length s]"
| "object_keys _ = []"

text \<open>
  \<open>k in obj\<close> holds for the own properties of \<open>obj\<close> and for those it inherits. The
  \<open>props\<close> of a request are a plain object (the handler's default \<open>{}\<close>, or the record the
  input schema parses), so they inherit the properties of \<open>Object.prototype\<close>.
\<close>

definition object_prototype_names :: "string list" where
  "object_prototype_names =
     [''constructor'', ''__defineGetter__'', ''__defineSetter__'', ''hasOwnProperty'',
      ''__lookupGetter__'', ''__lookupSetter__'', ''isPrototypeOf'', ''propertyIsEnumerable'',
      ''toString'', ''valueOf'', ''__proto__'', ''toLocaleString'']"

definition js_in :: "string \<Rightarrow> (string \<times> jsval) list \<Rightarrow> bool" where
  "js_in k obj = (k \<in> set (map fst obj) \<or> k \<in> set object_prototype_names)"

section \<open>Data of the report\<close>

text \<open>
  What axe-core returns (only the fields the handler reads, and one engine-internal field
  per record that it drops) and what the handler reports.
\<close>

record axe_node =
  node_html :: string
  node_failureSummary :: string
  node_target :: "string list"

record axe_violation =
  axe_id :: string
  axe_impact :: "string option"
  axe_description :: string
  axe_help :: string
  axe_helpUrl :: string
  axe_nodes :: "axe_node list"
  axe_tags :: "string list"

record axe_results =
  axe_violations :: "axe_violation list"
  axe_passes :: "string list"

record node_report =
  html :: string
  failureSummary :: string

record violation =
  rule_id :: string
  impact :: "string option"
  description :: string
  help_text :: string
  helpUrl :: string
  nodes :: "node_report list"

record check_result =
  filePath :: string
  totalViolations :: nat
  violations :: "violation list"
  missingProps :: "string list option"
  summary :: string

datatype payload =
    Check_result check_result
  | Error_report jsval string

record response =
  content :: payload
  isError :: bool

record request =
  pagePath :: string
  props :: "(string \<times> jsval) list option"

definition format_node :: "axe_node \<Rightarrow> node_report" where
  "format_node node = \<lparr>html = node_html node, failureSummary = node_failureSummary node\<rparr>"

definition format_violation :: "axe_violation \<Rightarrow> violation" where
  "format_violation v =
     \<lparr>rule_id = axe_id v, impact = axe_impact v, description = axe_description v,
      help_text = axe_help v, helpUrl = axe_helpUrl v, nodes = map format_node (axe_nodes v)\<rparr>"

definition pass_sentence :: string where
  "pass_sentence = ''No accessibility violations found! The page passes all axe-core checks.''"

definition summary_line :: "nat \<Rightarrow> string" where
  "summary_line n =
     (if n = 0 then pass_sentence
      else ''Found '' @ decimal n
           @ '' accessibility violation(s). Review the violations array for details and fixes.'')"

definition assemble :: "string \<Rightarrow> violation list \<Rightarrow> string list \<Rightarrow> check_result" where
  "assemble fullPath vs missing =
     \<lparr>filePath = fullPath,
      totalViolations = length vs,
      violations = vs,
      missingProps = (if length missing > 0 then Some missing else None),
      summary = summary_line (length vs)\<rparr>"

definition hint_text :: string where
  "hint_text = ''Make sure the file exists, exports a valid React component (default export), and that all required dependencies are installed in your project.''"

text \<open>
  The \<open>catch\<close> block. It reads \<open>error.message\<close>, which is the message of an \<open>Error\<close>, a
  property read on any other thrown value, and itself throws a TypeError when the thrown
  value is \<open>null\<close> or \<open>undefined\<close>; nothing catches that, and the handler's promise rejects
  with it (\<open>Inl\<close>). The first field of \<open>Error_report\<close> is the value of the \<open>error\<close> key of
  the serialised object; \<open>JSON.stringify\<close> leaves the key out when it is \<open>undefined\<close>.
\<close>

fun read_message :: "error \<Rightarrow> error + jsval" where
  "read_message (Error msg) = Inr (JStr msg)"
| "read_message (Thrown v) = js_get v ''message''"

definition catch_block :: "error \<Rightarrow> error + response" where
  "catch_block e =
     (case read_message e of
        Inl type_error \<Rightarrow> Inl type_error
      | Inr msg \<Rightarrow> Inr \<lparr>content = Error_report msg hint_text, isError = True\<rparr>)"

definition result_response :: "check_result \<Rightarrow> response" where
  "result_response r = \<lparr>content = Check_result r, isError = False\<rparr>"

subsection \<open>Missing props\<close>

definition detect_missing :: "jsval \<Rightarrow> (string \<times> jsval) list \<Rightarrow> string list" where
  "detect_missing propTypes ps =
     (if truthy propTypes
      then filter (\<lambda>propName. \<not> js_in propName ps) (object_keys propTypes)
      else [])"

text \<open>
  The validators of the prop-types library, as far as a component declares with them:
  \<open>PropTypes.string\<close> is the optional validator and carries the required one as its
  \<open>isRequired\<close> property.
\<close>

definition required_validator :: jsval where
  "required_validator = JFun (PropType_validator True) []"

definition optional_validator :: jsval where
  "optional_validator = JFun (PropType_validator False) [(''isRequired'', required_validator)]"

fun is_required :: "jsval \<Rightarrow> bool" where
  "is_required (JFun (PropType_validator r) _) = r"
| "is_required _ = False"

text \<open>
  The reading of the specification, for comparison with \<open>detect_missing\<close>: the declared
  names whose validator is a required one and that the supplied mapping does not have.
\<close>

definition required_and_absent :: "(string \<times> jsval) list \<Rightarrow> (string \<times> jsval) list \<Rightarrow> string list" where
  "required_and_absent decls ps =
     filter (\<lambda>k. k \<notin> set (map fst ps)) (map fst (filter (\<lambda>(k, v). is_required v) decls))"

section \<open>The module system\<close>

text \<open>
  \<open>require.cache\<close> maps a resolved filename to the exports of the module loaded from it.
  Evaluating a file requires other files, each evaluated in turn unless it is cached, and
  then yields exports or throws; \<open>module_src\<close> is this tree. Node enters a module into the
  cache before it runs it and removes the entry again when it throws.
\<close>

type_synonym cache = "string \<Rightarrow> jsval option"

datatype module_src =
  Module_src "(string \<times> module_src) list" "error + jsval"

fun load_module :: "cache \<Rightarrow> string \<Rightarrow> module_src \<Rightarrow> (error + jsval) \<times> cache"
  and load_requires :: "cache \<Rightarrow> (string \<times> module_src) list \<Rightarrow> error option \<times> cache"
where
  "load_module c f (Module_src deps out) =
     (case load_requires (c(f \<mapsto> JObj [])) deps of
        (Some e, c') \<Rightarrow> (Inl e, c'(f := None))
      | (None, c') \<Rightarrow>
          (case out of
             Inl e \<Rightarrow> (Inl e, c'(f := None))
           | Inr v \<Rightarrow> (Inr v, c'(f \<mapsto> v))))"
| "load_requires c [] = (None, c)"
| "load_requires c ((d, src) # deps) =
     (case c d of
        Some _ \<Rightarrow> load_requires c deps
      | None \<Rightarrow>
          (case load_module c d src of
             (Inl e, c') \<Rightarrow> (Some e, c')
           | (Inr _, c') \<Rightarrow> load_requires c' deps))"

section \<open>The host: file system, libraries and the audit engine\<close>

text \<open>
  What the engine's \<open>axe.run\<close> does on a document: its promise settles some milliseconds
  after the call, fulfilled with results or rejected with an error, or it never settles.
\<close>

datatype axe_behaviour =
    Settles nat "error + axe_results"
  | Never_settles

datatype element =
  Element jsval "(string \<times> jsval) list" "element option"

record world =
  cwd :: string
  path_resolve :: "string \<Rightarrow> string \<Rightarrow> string"
  require_resolve :: "string \<Rightarrow> error + string"
  require_resolve_from :: "string \<Rightarrow> string \<Rightarrow> error + string"
  module_source :: "string \<Rightarrow> module_src"
  call :: "jsval \<Rightarrow> error + jsval"
  renderToString :: "element \<Rightarrow> error + string"
  window_eval :: "string \<Rightarrow> error option"
  axe_run :: "string \<Rightarrow> axe_behaviour"

record host =
  require_cache :: cache
  windows_opened :: nat
  windows_closed :: nat

definition require :: "world \<Rightarrow> cache \<Rightarrow> string \<Rightarrow> (error + jsval) \<times> cache" where
  "require w c p =
     (case require_resolve w p of
        Inl e \<Rightarrow> (Inl e, c)
      | Inr f \<Rightarrow>
          (case c f of
             Some v \<Rightarrow> (Inr v, c)
           | None \<Rightarrow> load_module c f (module_source w f)))"

definition js_call :: "world \<Rightarrow> string \<Rightarrow> jsval \<Rightarrow> error + jsval" where
  "js_call w name f =
     (case f of
        JFun _ _ \<Rightarrow> call w f
      | _ \<Rightarrow> Inl (Error (name @ '' is not a function'')))"

section \<open>Environment wrapping\<close>

text \<open>
  Each \<open>try { ... } catch { }\<close> block of the handler leaves \<open>element\<close> as it was when any
  statement of the block throws; modules loaded before the throw stay in the cache.
\<close>

definition wrap_router :: "world \<Rightarrow> cache \<Rightarrow> element \<Rightarrow> element \<times> cache" where
  "wrap_router w c element =
     (case require_resolve_from w ''react-router-dom'' (cwd w) of
        Inl _ \<Rightarrow> (element, c)
      | Inr rrPath \<Rightarrow>
          (case require w c rrPath of
             (Inl _, c') \<Rightarrow> (element, c')
           | (Inr rr, c') \<Rightarrow>
               (case js_get rr ''MemoryRouter'' of
                  Inl _ \<Rightarrow> (element, c')
                | Inr MemoryRouter \<Rightarrow> (Element MemoryRouter [] (Some element), c'))))"

definition themeLocations :: "string list" where
  "themeLocations = [''src/theme.jsx'', ''src/theme.js'', ''src/theme.tsx'', ''src/theme.ts'']"

text \<open>The body of the loop over \<open>themeLocations\<close>: \<open>Some theme\<close> is the \<open>break\<close>.\<close>

definition try_theme_location :: "world \<Rightarrow> cache \<Rightarrow> string \<Rightarrow> jsval option \<times> cache" where
  "try_theme_location w c loc =
     (case require w c (path_resolve w (cwd w) loc) of
        (Inl _, c') \<Rightarrow> (None, c')
      | (Inr themeModule, c') \<Rightarrow>
          (case js_get themeModule ''default'' of
             Inl _ \<Rightarrow> (None, c')
           | Inr d \<Rightarrow> (Some (js_or d themeModule), c')))"

fun probe_theme :: "world \<Rightarrow> cache \<Rightarrow> string list \<Rightarrow> jsval \<times> cache" where
  "probe_theme w c [] = (JUndefined, c)"
| "probe_theme w c (loc # locs) =
     (case try_theme_location w c loc of
        (Some theme, c') \<Rightarrow> (theme, c')
      | (None, c') \<Rightarrow> probe_theme w c' locs)"

text \<open>\<open>let theme; for (...) {...}; if (!theme) theme = createTheme();\<close>\<close>

definition select_theme :: "world \<Rightarrow> cache \<Rightarrow> jsval \<Rightarrow> (error + jsval) \<times> cache" where
  "select_theme w c createTheme =
     (case probe_theme w c themeLocations of
        (theme, c') \<Rightarrow>
          (if \<not> truthy theme then (js_call w ''createTheme'' createTheme, c')
           else (Inr theme, c')))"

definition wrap_theme :: "world \<Rightarrow> cache \<Rightarrow> element \<Rightarrow> element \<times> cache" where
  "wrap_theme w c element =
     (case require_resolve_from w ''@mui/material/styles'' (cwd w) of
        Inl _ \<Rightarrow> (element, c)
      | Inr muiPath \<Rightarrow>
          (case require w c muiPath of
             (Inl _, c1) \<Rightarrow> (element, c1)
           | (Inr mui, c1) \<Rightarrow>
               (case js_get mui ''ThemeProvider'' of
                  Inl _ \<Rightarrow> (element, c1)
                | Inr ThemeProvider \<Rightarrow>
                    (case js_get mui ''createTheme'' of
                       Inl _ \<Rightarrow> (element, c1)
                     | Inr createTheme \<Rightarrow>
                         (case select_theme w c1 createTheme of
                            (Inl _, c2) \<Rightarrow> (element, c2)
                          | (Inr theme, c2) \<Rightarrow>
                              (Element ThemeProvider [(''theme'', theme)] (Some element), c2))))))"

definition wrap_environment :: "world \<Rightarrow> cache \<Rightarrow> element \<Rightarrow> element \<times> cache" where
  "wrap_environment w c element =
     (case wrap_router w c element of
        (element1, c1) \<Rightarrow> wrap_theme w c1 element1)"

section \<open>Waiting for the audit\<close>

text \<open>
  The promise the handler awaits is settled by whichever callback runs first: the timer's,
  armed for \<open>30_000\<close> milliseconds before \<open>axe.run\<close> is called, or the engine's \<open>then\<close> or
  \<open>catch\<close> callback, which clears the timer. A promise settles once; a cleared timer does
  not fire. No callback stops the engine: \<open>engine_pending\<close> changes only when the
  engine's own promise settles.
\<close>

definition axe_timeout_ms :: nat where
  "axe_timeout_ms = 30000"

definition timeout_error :: error where
  "timeout_error = Error ''axe-core timed out after 30 seconds''"

datatype axe_event =
    Timer_fired
  | Axe_resolved axe_results
  | Axe_rejected error

record audit_wait =
  settled :: "(error + axe_results) option"
  timer_armed :: bool
  engine_pending :: bool

definition audit_started :: audit_wait where
  "audit_started = \<lparr>settled = None, timer_armed = True, engine_pending = True\<rparr>"

definition settle :: "error + axe_results \<Rightarrow> audit_wait \<Rightarrow> audit_wait" where
  "settle x s = (case settled s of None \<Rightarrow> s\<lparr>settled := Some x\<rparr> | Some _ \<Rightarrow> s)"

fun on_event :: "axe_event \<Rightarrow> audit_wait \<Rightarrow> audit_wait" where
  "on_event Timer_fired s =
     (if timer_armed s then settle (Inl timeout_error) (s\<lparr>timer_armed := False\<rparr>) else s)"
| "on_event (Axe_resolved results) s =
     settle (Inr results) (s\<lparr>timer_armed := False, engine_pending := False\<rparr>)"
| "on_event (Axe_rejected err) s =
     settle (Inl err) (s\<lparr>timer_armed := False, engine_pending := False\<rparr>)"

definition engine_event :: "error + axe_results \<Rightarrow> axe_event" where
  "engine_event out = (case out of Inl err \<Rightarrow> Axe_rejected err | Inr results \<Rightarrow> Axe_resolved results)"

text \<open>
  The callbacks in the order the event loop runs them. The timer was armed first, so it
  runs first unless the engine settles before \<open>axe_timeout_ms\<close> have passed.
\<close>

fun schedule :: "axe_behaviour \<Rightarrow> axe_event list" where
  "schedule (Settles t out) =
     (if t < axe_timeout_ms then [engine_event out, Timer_fired]
      else [Timer_fired, engine_event out])"
| "schedule Never_settles = [Timer_fired]"

text \<open>
  \<open>await\<close>: the handler resumes at the first event that settles the promise, with the
  state of that moment; it never resumes (\<open>None\<close>) if no event does.
\<close>

fun await_settled :: "axe_event list \<Rightarrow> audit_wait \<Rightarrow> ((error + axe_results) \<times> audit_wait) option" where
  "await_settled [] s = None"
| "await_settled (ev # evs) s =
     (case settled (on_event ev s) of
        Some x \<Rightarrow> Some (x, on_event ev s)
      | None \<Rightarrow> await_settled evs (on_event ev s))"

definition run_events :: "axe_event list \<Rightarrow> audit_wait \<Rightarrow> audit_wait" where
  "run_events evs s = foldl (\<lambda>s ev. on_event ev s) s evs"

definition await_axe :: "axe_behaviour \<Rightarrow> ((error + axe_results) \<times> audit_wait) option" where
  "await_axe b = await_settled (schedule b) audit_started"

section \<open>The handler of accessibilityCheck\<close>

definition evict :: "world \<Rightarrow> cache \<Rightarrow> string \<Rightarrow> cache" where
  "evict w c fullPath =
     (case require_resolve w fullPath of
        Inl _ \<Rightarrow> c
      | Inr f \<Rightarrow> c(f := None))"

definition not_a_component :: "string \<Rightarrow> jsval \<Rightarrow> error" where
  "not_a_component p Component =
     Error (''The file '' @ [CHR 0x22] @ p @ [CHR 0x22]
            @ '' does not export a valid React component. ''
            @ ''Got '' @ typeof Component @ '' instead of a function.'')"

definition document_html :: "string \<Rightarrow> string" where
  "document_html renderedHtml =
     ''<!DOCTYPE html>'' @ [CHR 0x0A]
     @ ''<html lang='' @ [CHR 0x22] @ ''en'' @ [CHR 0x22] @ ''>'' @ [CHR 0x0A]
     @ ''  <head><title>Accessibility Check</title></head>'' @ [CHR 0x0A]
     @ ''  <body>'' @ renderedHtml @ ''</body>'' @ [CHR 0x0A]
     @ ''</html>''"

text \<open>
  Steps 5 to 7: the window is opened by \<open>new JSDOM\<close> and closed by \<open>dom.window.close()\<close>,
  which stands after the violations are formatted.
\<close>

definition audit :: "world \<Rightarrow> host \<Rightarrow> string \<Rightarrow> ((error + violation list) \<times> host) option" where
  "audit w h renderedHtml =
     (let fullHtml = document_html renderedHtml;
          h1 = h\<lparr>windows_opened := windows_opened h + 1\<rparr>
      in case window_eval w fullHtml of
           Some e \<Rightarrow> Some (Inl e, h1)
         | None \<Rightarrow>
             (case await_axe (axe_run w fullHtml) of
                None \<Rightarrow> None
              | Some (Inl e, _) \<Rightarrow> Some (Inl e, h1)
              | Some (Inr axeResults, _) \<Rightarrow>
                  Some (Inr (map format_violation (axe_violations axeResults)),
                        h1\<lparr>windows_closed := windows_closed h1 + 1\<rparr>)))"

text \<open>Steps 1 and 2: resolve the path, evict, load, pick the export, check it is a function.\<close>

definition load_component :: "world \<Rightarrow> cache \<Rightarrow> request \<Rightarrow> (error + jsval) \<times> cache" where
  "load_component w c rq =
     (let fullPath = path_resolve w (cwd w) (pagePath rq)
      in case require w (evict w c fullPath) fullPath of
           (Inl e, c2) \<Rightarrow> (Inl e, c2)
         | (Inr componentModule, c2) \<Rightarrow>
             (case js_get componentModule ''default'' of
                Inl e \<Rightarrow> (Inl e, c2)
              | Inr d \<Rightarrow>
                  (let Component = js_or d componentModule
                   in if typeof Component \<noteq> ''function''
                      then (Inl (not_a_component (pagePath rq) Component), c2)
                      else (Inr Component, c2))))"

text \<open>The body of the handler's \<open>try\<close> block; \<open>Inl\<close> is what it throws.\<close>

definition check_body :: "world \<Rightarrow> request \<Rightarrow> host \<Rightarrow> ((error + check_result) \<times> host) option" where
  "check_body w rq h =
     (let ps = (case props rq of None \<Rightarrow> [] | Some given \<Rightarrow> given);
          fullPath = path_resolve w (cwd w) (pagePath rq)
      in case load_component w (require_cache h) rq of
           (Inl e, c2) \<Rightarrow> Some (Inl e, h\<lparr>require_cache := c2\<rparr>)
         | (Inr Component, c2) \<Rightarrow>
             (case js_get Component ''propTypes'' of
                Inl e \<Rightarrow> Some (Inl e, h\<lparr>require_cache := c2\<rparr>)
              | Inr propTypes \<Rightarrow>
                  (let missing = detect_missing propTypes ps
                   in case wrap_environment w c2 (Element Component ps None) of
                        (element, c4) \<Rightarrow>
                          (case renderToString w element of
                             Inl e \<Rightarrow> Some (Inl e, h\<lparr>require_cache := c4\<rparr>)
                           | Inr renderedHtml \<Rightarrow>
                               (case audit w (h\<lparr>require_cache := c4\<rparr>) renderedHtml of
                                  None \<Rightarrow> None
                                | Some (Inl e, h') \<Rightarrow> Some (Inl e, h')
                                | Some (Inr vs, h') \<Rightarrow>
                                    Some (Inr (assemble fullPath vs missing), h'))))))"

text \<open>
  The handler: \<open>try { ... } catch (error) { ... }\<close>. Its promise is fulfilled with a
  response (\<open>Inr\<close>), rejected with what escapes the \<open>catch\<close> block (\<open>Inl\<close>), or never
  settles (\<open>None\<close>).
\<close>

definition accessibilityCheck ::
  "world \<Rightarrow> request \<Rightarrow> host \<Rightarrow> ((error + response) \<times> host) option" where
  "accessibilityCheck w rq h =
     (case check_body w rq h of
        None \<Rightarrow> None
      | Some (Inr result, h') \<Rightarrow> Some (Inr (result_response result), h')
      | Some (Inl e, h') \<Rightarrow> Some (catch_block e, h'))"

section \<open>A sample project\<close>

text \<open>
  The repository's own \<open>SamplePage.jsx\<close>, whose \<open>propTypes\<close> declare \<open>title\<close> and
  \<open>username\<close> with the optional validator \<open>PropTypes.string\<close>, in a project that has
  neither react-router-dom nor MUI installed; the engine reports one violation.
\<close>

definition SamplePage_propTypes :: "(string \<times> jsval) list" where
  "SamplePage_propTypes = [(''title'', optional_validator), (''username'', optional_validator)]"

definition SamplePage :: jsval where
  "SamplePage = JFun (Component_fn ''SamplePage'') [(''propTypes'', JObj SamplePage_propTypes)]"

text \<open>Node's error for a request that does not resolve, raised from the server's \<open>index.js\<close>.\<close>

definition cannot_find :: "string \<Rightarrow> error" where
  "cannot_find p =
     Error (''Cannot find module '' @ [CHR 0x27] @ p @ [CHR 0x27] @ [CHR 0x0A]
            @ ''Require stack:'' @ [CHR 0x0A]
            @ ''- /srv/mcp-accessibility-check/index.js'')"

definition image_alt :: axe_violation where
  "image_alt =
     \<lparr>axe_id = ''image-alt'', axe_impact = Some ''critical'',
      axe_description = ''Ensure <img> elements have alternative text or a role of none or presentation'',
      axe_help = ''Images must have alternative text'',
      axe_helpUrl = ''https://dequeuniversity.com/rules/axe/4.10/image-alt'',
      axe_nodes = [\<lparr>node_html = ''<img src=x.jpg>'', node_failureSummary = ''Fix any of the following'',
                    node_target = [''img'']\<rparr>],
      axe_tags = [''wcag2a'']\<rparr>"

definition sample_project :: world where
  "sample_project =
     \<lparr>cwd = ''/proj'',
      path_resolve = (\<lambda>base rel. base @ ''/'' @ rel),
      require_resolve = (\<lambda>p. if p = ''/proj/SamplePage.jsx'' then Inr p else Inl (cannot_find p)),
      require_resolve_from = (\<lambda>name dir. Inl (cannot_find name)),
      module_source = (\<lambda>f. Module_src [] (Inr (JObj [(''__esModule'', JBool True), (''default'', SamplePage)]))),
      call = (\<lambda>f. Inr (JObj [])),
      renderToString = (\<lambda>el. Inr ''<div><img src=x.jpg></div>''),
      window_eval = (\<lambda>doc. None),
      axe_run = (\<lambda>doc. Settles 120 (Inr \<lparr>axe_violations = [image_alt], axe_passes = []\<rparr>))\<rparr>"

definition fresh_host :: host where
  "fresh_host = \<lparr>require_cache = Map.empty, windows_opened = 0, windows_closed = 0\<rparr>"

definition sample_request :: request where
  "sample_request = \<lparr>pagePath = ''SamplePage.jsx'', props = None\<rparr>"

text \<open>Variations of the sample: an engine that never settles and one that rejects.\<close>

definition hung_project :: world where
  "hung_project = sample_project\<lparr>axe_run := (\<lambda>doc. Never_settles)\<rparr>"

definition rejecting_project :: world where
  "rejecting_project =
     sample_project\<lparr>axe_run := (\<lambda>doc. Settles 50 (Inl (Error ''axe failed'')))\<rparr>"

text \<open>
  A second check in a running server: \<open>SamplePage.jsx\<close> now requires \<open>Button.jsx\<close>, and
  the cache still holds what an earlier check loaded from both files.
\<close>

definition dependent_project :: world where
  "dependent_project =
     sample_project\<lparr>module_source :=
       (\<lambda>f. Module_src
              [(''/proj/Button.jsx'', Module_src [] (Inr (JObj [(''edited'', JBool True)])))]
              (Inr (JObj [(''__esModule'', JBool True), (''default'', SamplePage)])))\<rparr>"

definition warm_host :: host where
  "warm_host =
     \<lparr>require_cache =
        [''/proj/SamplePage.jsx'' \<mapsto> JObj [(''default'', JStr ''stale'')],
         ''/proj/Button.jsx'' \<mapsto> JObj [(''edited'', JBool False)]],
      windows_opened = 0, windows_closed = 0\<rparr>"

text \<open>\<open>keeps c c'\<close>: every entry of the cache \<open>c\<close> is an entry of \<open>c'\<close>, unchanged.\<close>

definition keeps :: "cache \<Rightarrow> cache \<Rightarrow> bool" where
  "keeps c c' = (\<forall>k v. c k = Some v \<longrightarrow> c' k = Some v)"

text \<open>
  Projects with MUI installed: without a theme file, with \<open>src/theme.js\<close>, and with an
  additional \<open>src/theme.jsx\<close> whose \<open>module.exports\<close> is the number 0.
\<close>

definition mui_styles_path :: string where
  "mui_styles_path = ''/proj/node_modules/@mui/material/styles/index.js''"

definition createTheme_fn :: jsval where
  "createTheme_fn = JFun (Library_fn ''createTheme'') []"

definition ThemeProvider_fn :: jsval where
  "ThemeProvider_fn = JFun (Library_fn ''ThemeProvider'') []"

definition mui_styles :: jsval where
  "mui_styles = JObj [(''ThemeProvider'', ThemeProvider_fn), (''createTheme'', createTheme_fn)]"

definition default_theme :: jsval where
  "default_theme = JObj [(''palette'', JStr ''light'')]"

definition project_theme :: jsval where
  "project_theme = JObj [(''palette'', JStr ''dark'')]"

definition mui_project :: world where
  "mui_project =
     sample_project
       \<lparr>require_resolve :=
          (\<lambda>p. if p = ''/proj/SamplePage.jsx'' \<or> p = mui_styles_path then Inr p
               else Inl (cannot_find p)),
        require_resolve_from :=
          (\<lambda>name dir. if name = ''@mui/material/styles'' then Inr mui_styles_path
               else Inl (cannot_find name)),
        module_source :=
          (\<lambda>f. if f = mui_styles_path then Module_src [] (Inr mui_styles)
               else Module_src [] (Inr (JObj [(''__esModule'', JBool True), (''default'', SamplePage)]))),
        call := (\<lambda>f. Inr default_theme)\<rparr>"

definition themed_project :: world where
  "themed_project =
     mui_project
       \<lparr>require_resolve :=
          (\<lambda>p. if p = ''/proj/src/theme.js'' then Inr p else require_resolve mui_project p),
        module_source :=
          (\<lambda>f. if f = ''/proj/src/theme.js''
               then Module_src [] (Inr (JObj [(''__esModule'', JBool True), (''default'', project_theme)]))
               else module_source mui_project f)\<rparr>"

definition falsy_theme_project :: world where
  "falsy_theme_project =
     themed_project
       \<lparr>require_resolve :=
          (\<lambda>p. if p = ''/proj/src/theme.jsx'' then Inr p else require_resolve themed_project p),
        module_source :=
          (\<lambda>f. if f = ''/proj/src/theme.jsx'' then Module_src [] (Inr (JNum 0))
               else module_source themed_project f)\<rparr>"

text \<open>
  \<open>all_fail w c locs = Some c'\<close>: probed in order from the cache \<open>c\<close>, no location of
  \<open>locs\<close> yields a theme module, and the probing leaves the cache \<open>c'\<close>.
\<close>

fun all_fail :: "world \<Rightarrow> cache \<Rightarrow> string list \<Rightarrow> cache option" where
  "all_fail w c [] = Some c"
| "all_fail w c (loc # locs) =
     (case try_theme_location w c loc of
        (None, c') \<Rightarrow> all_fail w c' locs
      | (Some _, _) \<Rightarrow> None)"

text \<open>A component that declares a prop named \<open>toString\<close> next to \<open>title\<close>.\<close>

definition Formatter :: jsval where
  "Formatter =
     JFun (Component_fn ''Formatter'')
       [(''propTypes'', JObj [(''title'', optional_validator), (''toString'', required_validator)])]"

definition formatter_project :: world where
  "formatter_project =
     sample_project\<lparr>module_source :=
       (\<lambda>f. Module_src [] (Inr (JObj [(''__esModule'', JBool True), (''default'', Formatter)])))\<rparr>"

text \<open>A page without violations.\<close>

definition clean_project :: world where
  "clean_project =
     sample_project\<lparr>axe_run :=
       (\<lambda>doc. Settles 120 (Inr \<lparr>axe_violations = [], axe_passes = [''image-alt'']\<rparr>))\<rparr>"

text \<open>
  A component file whose top-level code is \<open>throw null\<close>, an engine whose promise is
  rejected without a reason, and a page with twelve violations.
\<close>

definition null_throwing_project :: world where
  "null_throwing_project =
     sample_project\<lparr>module_source := (\<lambda>f. Module_src [] (Inl (Thrown JNull)))\<rparr>"

definition reasonless_project :: world where
  "reasonless_project =
     sample_project\<lparr>axe_run := (\<lambda>doc. Settles 50 (Inl (Thrown JUndefined)))\<rparr>"

definition twelve_project :: world where
  "twelve_project =
     sample_project\<lparr>axe_run :=
       (\<lambda>doc. Settles 120 (Inr \<lparr>axe_violations = replicate 12 image_alt, axe_passes = []\<rparr>))\<rparr>"

text \<open>
  What a run of the handler produced, for reading off single parts: the Check Result of
  a response, the message of an error response when it is a string, what the promise was
  rejected with, and the host afterwards.
\<close>

definition report_of :: "((error + response) \<times> host) option \<Rightarrow> check_result option" where
  "report_of run =
     (case run of
        Some (Inr resp, _) \<Rightarrow>
          (case content resp of Check_result r \<Rightarrow> Some r | Error_report _ _ \<Rightarrow> None)
      | Some (Inl _, _) \<Rightarrow> None
      | None \<Rightarrow> None)"

definition failure_of :: "((error + response) \<times> host) option \<Rightarrow> string option" where
  "failure_of run =
     (case run of
        Some (Inr resp, _) \<Rightarrow>
          (case content resp of
             Check_result _ \<Rightarrow> None
           | Error_report msg _ \<Rightarrow> (case msg of JStr text \<Rightarrow> Some text | _ \<Rightarrow> None))
      | Some (Inl _, _) \<Rightarrow> None
      | None \<Rightarrow> None)"

definition rejection_of :: "((error + response) \<times> host) option \<Rightarrow> error option" where
  "rejection_of run =
     (case run of
        Some (Inl e, _) \<Rightarrow> Some e
      | Some (Inr _, _) \<Rightarrow> None
      | None \<Rightarrow> None)"

definition host_after :: "((error + response) \<times> host) option \<Rightarrow> host option" where
  "host_after run = map_option snd run"

section \<open>The handler always returns\<close>

lemmas eval_defs =
  accessibilityCheck_def check_body_def load_component_def evict_def require_def
  fresh_host_def sample_request_def SamplePage_def SamplePage_propTypes_def audit_def await_axe_def
  wrap_environment_def wrap_router_def wrap_theme_def detect_missing_def js_or_def lookup_own_def
  optional_validator_def required_validator_def assemble_def summary_line_def pass_sentence_def
  result_response_def catch_block_def own_keys_def is_array_index_def is_digit_def
  js_in_def object_prototype_names_def audit_started_def settle_def engine_event_def
  axe_timeout_ms_def format_violation_def format_node_def image_alt_def cannot_find_def
  report_of_def failure_of_def rejection_of_def host_after_def timeout_error_def

lemma await_axe_value:
  "await_axe b =
     (case b of
        Settles t out \<Rightarrow>
          (if t < axe_timeout_ms
           then Some (out, \<lparr>settled = Some out, timer_armed = False, engine_pending = False\<rparr>)
           else Some (Inl timeout_error,
                      \<lparr>settled = Some (Inl timeout_error), timer_armed = False, engine_pending = True\<rparr>))
      | Never_settles \<Rightarrow>
          Some (Inl timeout_error,
                \<lparr>settled = Some (Inl timeout_error), timer_armed = False, engine_pending = True\<rparr>))"
  by (cases b)
     (auto simp: await_axe_def audit_started_def settle_def engine_event_def split: sum.splits)

lemma await_axe_returns: "\<exists>x s. await_axe b = Some (x, s)"
  by (cases b) (simp_all add: await_axe_value)

lemma audit_returns: "\<exists>x h'. audit w h renderedHtml = Some (x, h')"
proof -
  obtain x s where "await_axe (axe_run w (document_html renderedHtml)) = Some (x, s)"
    using await_axe_returns by blast
  then show ?thesis
    by (cases x; cases "window_eval w (document_html renderedHtml)") (simp_all add: audit_def Let_def)
qed

lemma check_body_returns: "\<exists>x h'. check_body w rq h = Some (x, h')"
proof -
  have "\<exists>x h'. (case audit w h0 r of None \<Rightarrow> None
          | Some (Inl e, h') \<Rightarrow> Some (Inl e, h')
          | Some (Inr vs, h') \<Rightarrow> Some (Inr (assemble p vs m), h')) = Some (x, h')" for p m h0 r
  proof -
    obtain y h1 where "audit w h0 r = Some (y, h1)" using audit_returns by blast
    then show ?thesis by (cases y) simp_all
  qed
  then show ?thesis
    unfolding check_body_def Let_def
    by (auto split: prod.splits sum.splits)
qed

lemma check_body_result:
  assumes "check_body w rq h = Some (Inr r, h')"
  shows "\<exists>Component c2 propTypes vs.
           load_component w (require_cache h) rq = (Inr Component, c2)
           \<and> js_get Component ''propTypes'' = Inr propTypes
           \<and> r = assemble (path_resolve w (cwd w) (pagePath rq)) vs
                   (detect_missing propTypes (case props rq of None \<Rightarrow> [] | Some given \<Rightarrow> given))"
  using assms unfolding check_body_def Let_def
  by (auto split: prod.splits sum.splits option.splits)

lemma accessibilityCheck_result:
  assumes "accessibilityCheck w rq h = Some (Inr resp, h')" and "content resp = Check_result r"
  shows "check_body w rq h = Some (Inr r, h')"
  using assms unfolding accessibilityCheck_def
  by (auto simp: result_response_def catch_block_def split: option.splits prod.splits sum.splits)

lemma sample_run:
  "\<exists>r h'. accessibilityCheck sample_project sample_request fresh_host = Some (Inr (result_response r), h')
     \<and> filePath r = ''/proj/SamplePage.jsx''
     \<and> violations r = [format_violation image_alt]
     \<and> totalViolations r = 1
     \<and> missingProps r = Some [''title'', ''username'']
     \<and> windows_opened h' = 1 \<and> windows_closed h' = 1"
  by (simp add: eval_defs sample_project_def Let_def)

lemma clean_run:
  "\<exists>r h'. accessibilityCheck clean_project sample_request fresh_host = Some (Inr (result_response r), h')
     \<and> violations r = []"
  by (simp add: eval_defs clean_project_def sample_project_def Let_def)

lemma twelve_run:
  "\<exists>r h'. accessibilityCheck twelve_project sample_request fresh_host = Some (Inr (result_response r), h')
     \<and> totalViolations r = 12"
  by (simp add: eval_defs twelve_project_def sample_project_def Let_def)

lemma audit_violations:
  "audit w h doc = Some (Inr vs, h') \<Longrightarrow>
     \<exists>results s. await_axe (axe_run w (document_html doc)) = Some (Inr results, s)
        \<and> vs = map format_violation (axe_violations results)"
  by (auto simp: audit_def Let_def split: option.splits sum.splits prod.splits)

subsection \<open>Decimal numerals read back\<close>

lemma digit_value_digit_char: "d < 10 \<Longrightarrow> digit_value (digit_char d) = d"
  by (simp add: digit_value_def digit_char_def)

lemma nat_of_digits_snoc: "nat_of_digits (s @ [c]) = 10 * nat_of_digits s + digit_value c"
  by (simp add: nat_of_digits_def)

lemma nat_of_digits_decimal: "nat_of_digits (decimal n) = n"
proof (induction n rule: decimal.induct)
  case (1 n)
  show ?case
  proof (cases "n < 10")
    case True
    then show ?thesis
      by (subst decimal.simps) (simp add: nat_of_digits_def digit_value_digit_char)
  next
    case False
    with 1 have "nat_of_digits (decimal (n div 10)) = n div 10" by simp
    with False show ?thesis
      by (subst decimal.simps) (simp add: nat_of_digits_snoc digit_value_digit_char)
  qed
qed

lemma digit_char_is_digit: "digit_char d \<in> set ''0123456789''"
  by (simp add: digit_char_def)

lemma decimal_digits: "set (decimal n) \<subseteq> set ''0123456789''"
proof (induction n rule: decimal.induct)
  case (1 n)
  show ?case
  proof (cases "n < 10")
    case True
    then show ?thesis
      using digit_char_is_digit [of n] by (subst decimal.simps) simp
  next
    case False
    with 1 have "set (decimal (n div 10)) \<subseteq> set ''0123456789''" by simp
    with False show ?thesis
      using digit_char_is_digit [of "n mod 10"] by (subst decimal.simps) simp
  qed
qed

lemma decimal_nonempty: "decimal n \<noteq> []"
  by (subst decimal.simps) simp

lemma decimal_leading: "0 < n \<Longrightarrow> hd (decimal n) \<noteq> CHR ''0''"
proof (induction n rule: decimal.induct)
  case (1 n)
  show ?case
  proof (cases "n < 10")
    case True
    with 1(2) show ?thesis
      by (subst decimal.simps) (simp add: digit_char_def)
  next
    case False
    then have "0 < n div 10" by simp
    with 1(1) False have "hd (decimal (n div 10)) \<noteq> CHR ''0''" by simp
    with False show ?thesis
      by (subst decimal.simps) (simp add: decimal_nonempty)
  qed
qed

lemma decimal_reads_back:
  "foldl (\<lambda>n c. 10 * n + (of_char c - 48)) (0::nat) (decimal n) = n"
  using nat_of_digits_decimal [of n] by (simp add: nat_of_digits_def digit_value_def)

section \<open>The report\<close>

text \<open>
  C3. Every Check Result the handler returns has \<open>totalViolations\<close> equal to the length of
  its \<open>violations\<close> sequence.
\<close>

theorem totalViolations_is_length:
  assumes "accessibilityCheck w rq h = Some (Inr resp, h')" and "content resp = Check_result r"
  shows "totalViolations r = length (violations r)"
proof -
  from assms have "check_body w rq h = Some (Inr r, h')" by (rule accessibilityCheck_result)
  then obtain p vs m where "r = assemble p vs m" using check_body_result by blast
  then show ?thesis by (simp add: assemble_def)
qed

theorem totalViolations_is_length_witness:
  "\<exists>resp h' r. accessibilityCheck sample_project sample_request fresh_host = Some (Inr resp, h')
     \<and> content resp = Check_result r
     \<and> length (violations r) = 1
     \<and> totalViolations r = length (violations r)"
proof -
  obtain r h' where run: "accessibilityCheck sample_project sample_request fresh_host = Some (Inr (result_response r), h')"
    and vs: "violations r = [format_violation image_alt]"
    using sample_run by blast
  have c: "content (result_response r) = Check_result r" by (simp add: result_response_def)
  from totalViolations_is_length [OF run c] vs c run show ?thesis by auto
qed

text \<open>
  C9. The summary line is a function of the violation count: the fixed pass sentence for
  zero violations, otherwise the sentence that carries the count and points to the
  violations array. The count is written as its decimal numeral: the text between
  "Found " and the rest consists of the digits 0 to 9, has no leading zero, and read in
  base ten gives \<open>totalViolations\<close> back. In particular a result without violations (the
  engine's violations, formatted one by one: \<open>audit_violations\<close>) has \<open>totalViolations\<close> 0
  and the pass sentence.
\<close>

theorem summary_from_count:
  assumes "accessibilityCheck w rq h = Some (Inr resp, h')" and "content resp = Check_result r"
  shows "summary r =
           (if totalViolations r = 0
            then ''No accessibility violations found! The page passes all axe-core checks.''
            else ''Found '' @ decimal (totalViolations r)
                 @ '' accessibility violation(s). Review the violations array for details and fixes.'')
         \<and> foldl (\<lambda>n c. 10 * n + (of_char c - 48)) (0::nat) (decimal (totalViolations r))
             = totalViolations r
         \<and> set (decimal (totalViolations r)) \<subseteq> set ''0123456789''
         \<and> (0 < totalViolations r \<longrightarrow> hd (decimal (totalViolations r)) \<noteq> CHR ''0'')
         \<and> (violations r = [] \<longrightarrow>
              totalViolations r = 0
              \<and> summary r = ''No accessibility violations found! The page passes all axe-core checks.'')"
proof -
  from assms have "check_body w rq h = Some (Inr r, h')" by (rule accessibilityCheck_result)
  then obtain p vs m where "r = assemble p vs m" using check_body_result by blast
  then show ?thesis
    using decimal_reads_back [of "totalViolations r"] decimal_digits [of "totalViolations r"]
      decimal_leading [of "totalViolations r"]
    by (simp add: assemble_def summary_line_def pass_sentence_def)
qed

theorem summary_from_count_witness:
  "(\<exists>resp h' r. accessibilityCheck twelve_project sample_request fresh_host = Some (Inr resp, h')
     \<and> content resp = Check_result r
     \<and> totalViolations r = 12
     \<and> summary r = ''Found 12 accessibility violation(s). Review the violations array for details and fixes.'')
   \<and> (\<exists>resp h' r. accessibilityCheck clean_project sample_request fresh_host = Some (Inr resp, h')
     \<and> content resp = Check_result r
     \<and> violations r = []
     \<and> totalViolations r = 0
     \<and> summary r = ''No accessibility violations found! The page passes all axe-core checks.'')"
proof -
  obtain r h' where run: "accessibilityCheck twelve_project sample_request fresh_host = Some (Inr (result_response r), h')"
    and n: "totalViolations r = 12"
    using twelve_run by blast
  have c: "content (result_response r) = Check_result r" by (simp add: result_response_def)
  have "decimal 12 = ''12''" by code_simp
  with summary_from_count [OF run c] n c run
  have 1: "\<exists>resp h' r. accessibilityCheck twelve_project sample_request fresh_host = Some (Inr resp, h')
     \<and> content resp = Check_result r
     \<and> totalViolations r = 12
     \<and> summary r = ''Found 12 accessibility violation(s). Review the violations array for details and fixes.''"
    by auto
  obtain r0 h0 where run0: "accessibilityCheck clean_project sample_request fresh_host = Some (Inr (result_response r0), h0)"
    and v0: "violations r0 = []"
    using clean_run by blast
  have c0: "content (result_response r0) = Check_result r0" by (simp add: result_response_def)
  from summary_from_count [OF run0 c0] v0 c0 run0
  have 2: "\<exists>resp h' r. accessibilityCheck clean_project sample_request fresh_host = Some (Inr resp, h')
     \<and> content resp = Check_result r
     \<and> violations r = []
     \<and> totalViolations r = 0
     \<and> summary r = ''No accessibility violations found! The page passes all axe-core checks.''"
    by blast
  from 1 2 show ?thesis by blast
qed

section \<open>Failures\<close>

lemma accessibilityCheck_failure:
  "check_body w rq h = Some (Inl e, h') \<Longrightarrow> accessibilityCheck w rq h = Some (catch_block e, h')"
  by (simp add: accessibilityCheck_def)

lemma accessibilityCheck_settles: "\<exists>outcome h'. accessibilityCheck w rq h = Some (outcome, h')"
proof -
  obtain x h' where "check_body w rq h = Some (x, h')" using check_body_returns by blast
  then show ?thesis by (cases x) (auto simp: accessibilityCheck_def)
qed

text \<open>
  An \<open>Error\<close> that the body throws becomes the error response with its message, and so
  does a thrown value that is neither \<open>null\<close> nor \<open>undefined\<close>, with whatever its \<open>message\<close>
  property holds; a thrown \<open>null\<close> or \<open>undefined\<close> makes the \<open>catch\<close> block itself throw.
\<close>

lemma catch_block_Error:
  "catch_block (Error msg) = Inr \<lparr>content = Error_report (JStr msg) hint_text, isError = True\<rparr>"
  by (simp add: catch_block_def)

lemma catch_block_nullish:
  "catch_block (Thrown JNull)
     = Inl (Error (''Cannot read properties of null (reading '' @ [CHR 0x27] @ ''message'' @ [CHR 0x27] @ '')''))"
  "catch_block (Thrown JUndefined)
     = Inl (Error (''Cannot read properties of undefined (reading '' @ [CHR 0x27] @ ''message'' @ [CHR 0x27] @ '')''))"
  by (simp_all add: catch_block_def)

lemma catch_block_returns:
  "v \<noteq> JNull \<Longrightarrow> v \<noteq> JUndefined \<Longrightarrow> \<exists>msg. catch_block (Thrown v)
     = Inr \<lparr>content = Error_report msg hint_text, isError = True\<rparr>"
  by (cases v) (simp_all add: catch_block_def)

lemma unresolved_path_is_reported:
  assumes "require_resolve w (path_resolve w (cwd w) (pagePath rq)) = Inl (Error msg)"
  shows "accessibilityCheck w rq h
           = Some (Inr \<lparr>content = Error_report (JStr msg) hint_text, isError = True\<rparr>, h)"
proof -
  from assms have "check_body w rq h = Some (Inl (Error msg), h)"
    by (simp add: check_body_def load_component_def evict_def require_def Let_def)
  then show ?thesis by (simp add: accessibilityCheck_def catch_block_Error)
qed

lemma not_a_function_is_reported:
  assumes "require w (evict w (require_cache h) (path_resolve w (cwd w) (pagePath rq)))
             (path_resolve w (cwd w) (pagePath rq)) = (Inr componentModule, c2)"
    and "js_get componentModule ''default'' = Inr d"
    and "typeof (js_or d componentModule) \<noteq> ''function''"
  shows "accessibilityCheck w rq h
           = Some (Inr \<lparr>content = Error_report
                          (JStr (''The file '' @ [CHR 0x22] @ pagePath rq @ [CHR 0x22]
                                 @ '' does not export a valid React component. Got ''
                                 @ typeof (js_or d componentModule) @ '' instead of a function.''))
                          hint_text,
                        isError = True\<rparr>,
                   h\<lparr>require_cache := c2\<rparr>)"
proof -
  from assms have "check_body w rq h
     = Some (Inl (not_a_component (pagePath rq) (js_or d componentModule)), h\<lparr>require_cache := c2\<rparr>)"
    by (simp add: check_body_def load_component_def Let_def)
  then show ?thesis
    by (simp add: accessibilityCheck_def not_a_component_def catch_block_Error)
qed

text \<open>
  C5. A path that does not resolve, and a module whose export is not a function, do yield
  the error response (\<open>unresolved_path_is_reported\<close>, \<open>not_a_function_is_reported\<close>), and so
  does every \<open>Error\<close> the body throws. But not every failure is turned into one: the
  \<open>catch\<close> block reads \<open>error.message\<close> unguarded. When the component file throws \<open>null\<close>,
  or the engine's promise is rejected without a reason, that read throws a TypeError, and
  the handler's promise is rejected with it instead of being fulfilled with an error
  response. An engine that rejects with an \<open>Error\<close> is reported as the claim says.
\<close>

theorem thrown_null_escapes_the_catch:
  "rejection_of (accessibilityCheck null_throwing_project sample_request fresh_host)
     = Some (Error (''Cannot read properties of null (reading '' @ [CHR 0x27] @ ''message'' @ [CHR 0x27] @ '')''))
   \<and> report_of (accessibilityCheck null_throwing_project sample_request fresh_host) = None
   \<and> failure_of (accessibilityCheck null_throwing_project sample_request fresh_host) = None
   \<and> rejection_of (accessibilityCheck reasonless_project sample_request fresh_host)
     = Some (Error (''Cannot read properties of undefined (reading '' @ [CHR 0x27] @ ''message'' @ [CHR 0x27] @ '')''))
   \<and> report_of (accessibilityCheck reasonless_project sample_request fresh_host) = None
   \<and> failure_of (accessibilityCheck reasonless_project sample_request fresh_host) = None
   \<and> rejection_of (accessibilityCheck rejecting_project sample_request fresh_host) = None
   \<and> failure_of (accessibilityCheck rejecting_project sample_request fresh_host) = Some ''axe failed''"
  by (simp add: eval_defs sample_project_def null_throwing_project_def reasonless_project_def
      rejecting_project_def Let_def)

section \<open>The audit step\<close>

lemma run_events_late:
  "\<not> t < axe_timeout_ms \<Longrightarrow>
     run_events (schedule (Settles t out)) audit_started
       = \<lparr>settled = Some (Inl timeout_error), timer_armed = False, engine_pending = False\<rparr>"
  by (cases out) (simp_all add: run_events_def audit_started_def settle_def engine_event_def)

text \<open>
  C4. The wait for the engine is bounded by the 30 second timer. If the engine's promise
  has not settled when the timer fires (it settles later, or never), the awaited promise
  is rejected with the error "axe-core timed out after 30 seconds" and the audit step
  fails with it; the engine is still pending at that moment, nothing stops it, and its
  later settlement leaves the outcome as it is. If the engine resolves before the
  deadline, its callback clears the timer and the wait returns the engine's results.
\<close>

theorem audit_wait_is_bounded:
  "(\<not> t < (30000::nat) \<longrightarrow>
      (\<exists>s. await_axe (Settles t out)
             = Some (Inl (Error ''axe-core timed out after 30 seconds''), s)
           \<and> engine_pending s)
      \<and> settled (run_events (schedule (Settles t out)) audit_started)
          = Some (Inl (Error ''axe-core timed out after 30 seconds'')))
   \<and> (\<exists>s. await_axe Never_settles
             = Some (Inl (Error ''axe-core timed out after 30 seconds''), s)
           \<and> engine_pending s)
   \<and> (t < (30000::nat) \<longrightarrow>
      (\<exists>s. await_axe (Settles t (Inr results)) = Some (Inr results, s) \<and> \<not> timer_armed s)
      \<and> settled (run_events (schedule (Settles t (Inr results))) audit_started)
          = Some (Inr results))
   \<and> (window_eval w (document_html renderedHtml) = None
        \<and> (axe_run w (document_html renderedHtml) = Never_settles
           \<or> (\<exists>t' out'. axe_run w (document_html renderedHtml) = Settles t' out' \<and> \<not> t' < 30000)) \<longrightarrow>
      map_option fst (audit w h renderedHtml)
        = Some (Inl (Error ''axe-core timed out after 30 seconds'')))"
proof (intro conjI impI)
  assume "\<not> t < (30000::nat)"
  then show "\<exists>s. await_axe (Settles t out)
             = Some (Inl (Error ''axe-core timed out after 30 seconds''), s)
           \<and> engine_pending s"
    by (simp add: await_axe_value axe_timeout_ms_def timeout_error_def)
next
  assume "\<not> t < (30000::nat)"
  then show "settled (run_events (schedule (Settles t out)) audit_started)
          = Some (Inl (Error ''axe-core timed out after 30 seconds''))"
    using run_events_late [of t out] by (simp add: axe_timeout_ms_def timeout_error_def)
next
  show "\<exists>s. await_axe Never_settles
             = Some (Inl (Error ''axe-core timed out after 30 seconds''), s)
           \<and> engine_pending s"
    by (simp add: await_axe_value timeout_error_def)
next
  assume "t < (30000::nat)"
  then show "\<exists>s. await_axe (Settles t (Inr results)) = Some (Inr results, s) \<and> \<not> timer_armed s"
    by (simp add: await_axe_value axe_timeout_ms_def)
next
  assume "t < (30000::nat)"
  then show "settled (run_events (schedule (Settles t (Inr results))) audit_started)
          = Some (Inr results)"
    by (simp add: run_events_def audit_started_def settle_def engine_event_def axe_timeout_ms_def)
next
  assume "window_eval w (document_html renderedHtml) = None
        \<and> (axe_run w (document_html renderedHtml) = Never_settles
           \<or> (\<exists>t' out'. axe_run w (document_html renderedHtml) = Settles t' out' \<and> \<not> t' < 30000))"
  then show "map_option fst (audit w h renderedHtml)
        = Some (Inl (Error ''axe-core timed out after 30 seconds''))"
    by (auto simp: audit_def Let_def await_axe_value axe_timeout_ms_def timeout_error_def)
qed

theorem audit_wait_is_bounded_witness:
  "(\<exists>s. await_axe (Settles 45000 (Inr \<lparr>axe_violations = [image_alt], axe_passes = []\<rparr>))
           = Some (Inl (Error ''axe-core timed out after 30 seconds''), s)
         \<and> engine_pending s)
   \<and> (\<exists>s. await_axe (Settles 120 (Inr \<lparr>axe_violations = [image_alt], axe_passes = []\<rparr>))
           = Some (Inr \<lparr>axe_violations = [image_alt], axe_passes = []\<rparr>, s)
         \<and> \<not> timer_armed s)
   \<and> map_option fst (audit hung_project fresh_host ''<div><img src=x.jpg></div>'')
       = Some (Inl (Error ''axe-core timed out after 30 seconds''))"
proof -
  have a: "\<not> (45000::nat) < 30000" and b: "(120::nat) < 30000" by simp_all
  have c: "window_eval hung_project (document_html ''<div><img src=x.jpg></div>'') = None
        \<and> (axe_run hung_project (document_html ''<div><img src=x.jpg></div>'') = Never_settles
           \<or> (\<exists>t' out'. axe_run hung_project (document_html ''<div><img src=x.jpg></div>'') = Settles t' out'
                \<and> \<not> t' < 30000))"
    by (simp add: hung_project_def sample_project_def)
  from audit_wait_is_bounded [of 45000 "Inr \<lparr>axe_violations = [image_alt], axe_passes = []\<rparr>"]
    audit_wait_is_bounded [of 120 _ "\<lparr>axe_violations = [image_alt], axe_passes = []\<rparr>"
        hung_project "''<div><img src=x.jpg></div>''" fresh_host]
    a b c
  show ?thesis by blast
qed

text \<open>
  Windows opened and closed by one check: every audit opens one window; it is closed when
  the body of the handler succeeds and on no path on which it throws.
\<close>

lemma audit_windows:
  "audit w h doc = Some (x, h') \<Longrightarrow>
     windows_opened h' = windows_opened h + 1
     \<and> windows_closed h' = (case x of Inl _ \<Rightarrow> windows_closed h | Inr _ \<Rightarrow> windows_closed h + 1)"
  by (auto simp: audit_def Let_def split: option.splits sum.splits prod.splits)

lemma check_body_windows:
  assumes "check_body w rq h = Some (x, h')"
  shows "windows_closed h' = (case x of Inl _ \<Rightarrow> windows_closed h | Inr _ \<Rightarrow> windows_closed h + 1)"
    and "windows_opened h' \<le> windows_opened h + 1"
    and "\<not> isl x \<Longrightarrow> windows_opened h' = windows_opened h + 1"
  using assms unfolding check_body_def Let_def
  by (auto split: prod.splits sum.splits option.splits dest!: audit_windows)

text \<open>
  C1. The window of the document is closed on the success path only. When the engine
  never settles, or rejects, the handler returns the error response and the window it
  opened is still open: \<open>dom.window.close()\<close> stands inside the \<open>try\<close> block after the
  awaited audit, and the \<open>catch\<close> block does not close it.
\<close>

theorem window_left_open_on_timeout:
  "failure_of (accessibilityCheck hung_project sample_request fresh_host)
     = Some ''axe-core timed out after 30 seconds''
   \<and> map_option windows_opened (host_after (accessibilityCheck hung_project sample_request fresh_host)) = Some 1
   \<and> map_option windows_closed (host_after (accessibilityCheck hung_project sample_request fresh_host)) = Some 0
   \<and> failure_of (accessibilityCheck rejecting_project sample_request fresh_host) = Some ''axe failed''
   \<and> map_option windows_opened (host_after (accessibilityCheck rejecting_project sample_request fresh_host)) = Some 1
   \<and> map_option windows_closed (host_after (accessibilityCheck rejecting_project sample_request fresh_host)) = Some 0
   \<and> map_option windows_opened (host_after (accessibilityCheck sample_project sample_request fresh_host)) = Some 1
   \<and> map_option windows_closed (host_after (accessibilityCheck sample_project sample_request fresh_host)) = Some 1"
  by (simp add: eval_defs sample_project_def hung_project_def rejecting_project_def Let_def)

section \<open>The module cache\<close>

lemma keeps_refl: "keeps c c"
  by (simp add: keeps_def)

lemma keeps_trans: "keeps a b \<Longrightarrow> keeps b c \<Longrightarrow> keeps a c"
  by (simp add: keeps_def)

lemma load_keeps:
  "(c f = None \<longrightarrow> keeps c (snd (load_module c f src)))"
  "keeps c (snd (load_requires c deps))"
proof (induction c f src and c deps rule: load_module_load_requires.induct)
  case (1 c f deps out)
  show ?case
  proof
    assume none: "c f = None"
    obtain r c' where lr: "load_requires (c(f \<mapsto> JObj [])) deps = (r, c')" by force
    have k: "keeps (c(f \<mapsto> JObj [])) c'" using 1 lr by (metis snd_conv)
    have "keeps c (c'(f := None))" and "\<And>v. keeps c (c'(f \<mapsto> v))"
      using k none by (auto simp: keeps_def)
    then show "keeps c (snd (load_module c f (Module_src deps out)))"
      using lr by (auto split: option.splits sum.splits)
  qed
next
  case (2 c)
  show ?case by (simp add: keeps_refl)
next
  case (3 c d src deps)
  show ?case
  proof (cases "c d")
    case (Some v)
    with 3 show ?thesis by simp
  next
    case None
    obtain r c' where lm: "load_module c d src = (r, c')" by force
    have k1: "keeps c c'" using 3 None lm by (metis snd_conv)
    show ?thesis
    proof (cases r)
      case (Inl e)
      with None lm k1 show ?thesis by simp
    next
      case (Inr v)
      have "keeps c' (snd (load_requires c' deps))"
        using 3 None lm Inr by metis
      with k1 Inr None lm show ?thesis by (auto intro: keeps_trans)
    qed
  qed
qed

lemma load_module_keeps: "c f = None \<Longrightarrow> load_module c f src = (r, c') \<Longrightarrow> keeps c c'"
  using load_keeps(1) [of c f src] by simp

lemma require_keeps: "require w c p = (r, c') \<Longrightarrow> keeps c c'"
  by (auto simp: require_def keeps_refl split: sum.splits option.splits dest: load_module_keeps)

lemma wrap_router_keeps: "wrap_router w c el = (el', c') \<Longrightarrow> keeps c c'"
  by (auto simp: wrap_router_def keeps_refl split: sum.splits prod.splits dest: require_keeps)

lemma try_theme_location_keeps: "try_theme_location w c loc = (r, c') \<Longrightarrow> keeps c c'"
  by (auto simp: try_theme_location_def split: sum.splits prod.splits dest: require_keeps)

lemma probe_theme_keeps: "probe_theme w c locs = (theme, c') \<Longrightarrow> keeps c c'"
proof (induction locs arbitrary: c)
  case Nil
  then show ?case by (simp add: keeps_refl)
next
  case (Cons loc locs)
  obtain r c1 where t: "try_theme_location w c loc = (r, c1)" by force
  then have k: "keeps c c1" by (rule try_theme_location_keeps)
  show ?case
  proof (cases r)
    case None
    with t Cons.prems have "probe_theme w c1 locs = (theme, c')" by simp
    then have "keeps c1 c'" by (rule Cons.IH)
    with k show ?thesis by (rule keeps_trans)
  next
    case (Some found)
    with t k Cons.prems show ?thesis by simp
  qed
qed

lemma select_theme_keeps: "select_theme w c createTheme = (r, c') \<Longrightarrow> keeps c c'"
  by (auto simp: select_theme_def split: prod.splits if_splits dest: probe_theme_keeps)

lemma wrap_theme_keeps: "wrap_theme w c el = (el', c') \<Longrightarrow> keeps c c'"
  by (auto simp: wrap_theme_def keeps_refl split: sum.splits prod.splits
      dest!: require_keeps select_theme_keeps intro: keeps_trans)

lemma wrap_environment_keeps: "wrap_environment w c el = (el', c') \<Longrightarrow> keeps c c'"
  by (auto simp: wrap_environment_def split: prod.splits
      dest!: wrap_router_keeps wrap_theme_keeps intro: keeps_trans)

lemma audit_cache: "audit w h doc = Some (x, h') \<Longrightarrow> require_cache h' = require_cache h"
  by (auto simp: audit_def Let_def split: option.splits sum.splits prod.splits)

lemma load_component_keeps:
  "load_component w c rq = (r, c') \<Longrightarrow> keeps (evict w c (path_resolve w (cwd w) (pagePath rq))) c'"
  by (auto simp: load_component_def Let_def split: prod.splits sum.splits if_splits dest: require_keeps)

lemma check_body_keeps:
  assumes "check_body w rq h = Some (x, h')"
  shows "keeps (evict w (require_cache h) (path_resolve w (cwd w) (pagePath rq))) (require_cache h')"
proof -
  let ?c1 = "evict w (require_cache h) (path_resolve w (cwd w) (pagePath rq))"
  obtain r c2 where lc: "load_component w (require_cache h) rq = (r, c2)" by force
  then have k2: "keeps ?c1 c2" by (rule load_component_keeps)
  have k4: "keeps ?c1 c4" if "wrap_environment w c2 el = (el', c4)" for el el' c4
    using k2 wrap_environment_keeps [OF that] by (rule keeps_trans)
  show ?thesis
    using assms lc k2 k4
    unfolding check_body_def Let_def
    by (auto split: prod.splits sum.splits option.splits dest!: audit_cache)
qed

lemma evict_idem:
  "require_resolve w p = Inr f \<Longrightarrow> evict w (c(f := x)) p = evict w c p"
  by (simp add: evict_def)

lemma load_component_ignores_entry:
  "require_resolve w (path_resolve w (cwd w) (pagePath rq)) = Inr f \<Longrightarrow>
     load_component w (c(f := x)) rq = load_component w c rq"
  by (simp add: load_component_def Let_def evict_idem)

lemma check_body_ignores_entry:
  assumes "require_resolve w (path_resolve w (cwd w) (pagePath rq)) = Inr f"
  shows "check_body w rq (h\<lparr>require_cache := (require_cache h)(f := x)\<rparr>) = check_body w rq h"
  using load_component_ignores_entry [OF assms, of "require_cache h" x]
  by (simp add: check_body_def Let_def split: prod.splits sum.splits option.splits)

lemma load_component_from_file:
  assumes "require_resolve w (path_resolve w (cwd w) (pagePath rq)) = Inr f"
  shows "load_component w c rq =
     (case load_module (c(f := None)) f (module_source w f) of
        (Inl e, c2) \<Rightarrow> (Inl e, c2)
      | (Inr componentModule, c2) \<Rightarrow>
          (case js_get componentModule ''default'' of
             Inl e \<Rightarrow> (Inl e, c2)
           | Inr d \<Rightarrow>
               if typeof (js_or d componentModule) \<noteq> ''function''
               then (Inl (not_a_component (pagePath rq) (js_or d componentModule)), c2)
               else (Inr (js_or d componentModule), c2)))"
  using assms
  by (simp add: load_component_def Let_def evict_def require_def split: prod.splits sum.splits)

lemma dependent_run:
  "\<exists>r h'. accessibilityCheck dependent_project sample_request warm_host = Some (Inr (result_response r), h')
     \<and> require_cache h' ''/proj/SamplePage.jsx''
         = Some (JObj [(''__esModule'', JBool True), (''default'', SamplePage)])"
  by (simp add: eval_defs dependent_project_def sample_project_def warm_host_def Let_def)

lemma dependent_load:
  "load_module ((require_cache warm_host)(''/proj/SamplePage.jsx'' := None)) ''/proj/SamplePage.jsx''
      (module_source dependent_project ''/proj/SamplePage.jsx'')
     = (Inr (JObj [(''__esModule'', JBool True), (''default'', SamplePage)]),
        [''/proj/SamplePage.jsx'' \<mapsto> JObj [(''__esModule'', JBool True), (''default'', SamplePage)],
         ''/proj/Button.jsx'' \<mapsto> JObj [(''edited'', JBool False)]])"
  by (simp add: dependent_project_def sample_project_def warm_host_def fun_upd_twist)

text \<open>
  C6. When the target path resolves, the handler removes exactly the cache entry of the
  resolved filename before it loads the component: what it loads is the file evaluated
  anew from the cache without that entry, so neither the component nor anything else the
  check returns depends on what the cache held for the target. Every other entry the
  cache held when the check began, the modules that earlier checks loaded as dependencies
  among them, is there unchanged when the check settles.
\<close>

theorem target_evicted_dependencies_kept:
  "(require_resolve w (path_resolve w (cwd w) (pagePath rq)) = Inr f \<longrightarrow>
      evict w (require_cache h) (path_resolve w (cwd w) (pagePath rq)) f = None
      \<and> (\<forall>k. k \<noteq> f \<longrightarrow>
            evict w (require_cache h) (path_resolve w (cwd w) (pagePath rq)) k = require_cache h k)
      \<and> load_component w (require_cache h) rq =
           (case load_module ((require_cache h)(f := None)) f (module_source w f) of
              (Inl e, c2) \<Rightarrow> (Inl e, c2)
            | (Inr componentModule, c2) \<Rightarrow>
                (case js_get componentModule ''default'' of
                   Inl e \<Rightarrow> (Inl e, c2)
                 | Inr d \<Rightarrow>
                     if typeof (js_or d componentModule) \<noteq> ''function''
                     then (Inl (not_a_component (pagePath rq) (js_or d componentModule)), c2)
                     else (Inr (js_or d componentModule), c2)))
      \<and> load_component w ((require_cache h)(f := cached)) rq = load_component w (require_cache h) rq
      \<and> accessibilityCheck w rq (h\<lparr>require_cache := (require_cache h)(f := cached)\<rparr>)
          = accessibilityCheck w rq h)
   \<and> (accessibilityCheck w rq h = Some (outcome, h')
        \<and> require_resolve w (path_resolve w (cwd w) (pagePath rq)) \<noteq> Inr k
        \<and> require_cache h k = Some v \<longrightarrow>
      require_cache h' k = Some v)"
proof (intro conjI impI allI)
  assume "require_resolve w (path_resolve w (cwd w) (pagePath rq)) = Inr f"
  then show "evict w (require_cache h) (path_resolve w (cwd w) (pagePath rq)) f = None"
    by (simp add: evict_def)
next
  fix k
  assume "require_resolve w (path_resolve w (cwd w) (pagePath rq)) = Inr f" and "k \<noteq> f"
  then show "evict w (require_cache h) (path_resolve w (cwd w) (pagePath rq)) k = require_cache h k"
    by (simp add: evict_def)
next
  assume "require_resolve w (path_resolve w (cwd w) (pagePath rq)) = Inr f"
  then show "load_component w (require_cache h) rq =
           (case load_module ((require_cache h)(f := None)) f (module_source w f) of
              (Inl e, c2) \<Rightarrow> (Inl e, c2)
            | (Inr componentModule, c2) \<Rightarrow>
                (case js_get componentModule ''default'' of
                   Inl e \<Rightarrow> (Inl e, c2)
                 | Inr d \<Rightarrow>
                     if typeof (js_or d componentModule) \<noteq> ''function''
                     then (Inl (not_a_component (pagePath rq) (js_or d componentModule)), c2)
                     else (Inr (js_or d componentModule), c2)))"
    by (rule load_component_from_file)
next
  assume "require_resolve w (path_resolve w (cwd w) (pagePath rq)) = Inr f"
  then show "load_component w ((require_cache h)(f := cached)) rq = load_component w (require_cache h) rq"
    by (rule load_component_ignores_entry)
next
  assume "require_resolve w (path_resolve w (cwd w) (pagePath rq)) = Inr f"
  then have "check_body w rq (h\<lparr>require_cache := (require_cache h)(f := cached)\<rparr>) = check_body w rq h"
    by (rule check_body_ignores_entry)
  then show "accessibilityCheck w rq (h\<lparr>require_cache := (require_cache h)(f := cached)\<rparr>)
          = accessibilityCheck w rq h"
    by (simp add: accessibilityCheck_def)
next
  assume a: "accessibilityCheck w rq h = Some (outcome, h')
        \<and> require_resolve w (path_resolve w (cwd w) (pagePath rq)) \<noteq> Inr k
        \<and> require_cache h k = Some v"
  then obtain x where "check_body w rq h = Some (x, h')"
    by (auto simp: accessibilityCheck_def split: option.splits prod.splits sum.splits)
  then have "keeps (evict w (require_cache h) (path_resolve w (cwd w) (pagePath rq))) (require_cache h')"
    by (rule check_body_keeps)
  moreover have "evict w (require_cache h) (path_resolve w (cwd w) (pagePath rq)) k = Some v"
    using a by (auto simp: evict_def split: sum.splits)
  ultimately show "require_cache h' k = Some v" by (simp add: keeps_def)
qed

theorem target_evicted_dependencies_kept_witness:
  "require_cache warm_host ''/proj/SamplePage.jsx'' = Some (JObj [(''default'', JStr ''stale'')])
   \<and> evict dependent_project (require_cache warm_host) ''/proj/SamplePage.jsx'' ''/proj/SamplePage.jsx'' = None
   \<and> fst (load_component dependent_project (require_cache warm_host) sample_request) = Inr SamplePage
   \<and> (\<exists>r h'. accessibilityCheck dependent_project sample_request warm_host = Some (Inr (result_response r), h')
         \<and> require_cache h' ''/proj/SamplePage.jsx''
              = Some (JObj [(''__esModule'', JBool True), (''default'', SamplePage)])
         \<and> require_cache h' ''/proj/Button.jsx'' = Some (JObj [(''edited'', JBool False)]))"
proof -
  have p: "path_resolve dependent_project (cwd dependent_project) (pagePath sample_request)
             = ''/proj/SamplePage.jsx''"
    by (simp add: dependent_project_def sample_project_def sample_request_def)
  have f: "require_resolve dependent_project ''/proj/SamplePage.jsx'' = Inr ''/proj/SamplePage.jsx''"
    by (simp add: dependent_project_def sample_project_def)
  have b: "require_cache warm_host ''/proj/Button.jsx'' = Some (JObj [(''edited'', JBool False)])"
    and s: "require_cache warm_host ''/proj/SamplePage.jsx'' = Some (JObj [(''default'', JStr ''stale'')])"
    by (simp_all add: warm_host_def)
  obtain r h' where run: "accessibilityCheck dependent_project sample_request warm_host = Some (Inr (result_response r), h')"
    and fresh: "require_cache h' ''/proj/SamplePage.jsx''
         = Some (JObj [(''__esModule'', JBool True), (''default'', SamplePage)])"
    using dependent_run by blast
  note t = target_evicted_dependencies_kept
    [of dependent_project sample_request "''/proj/SamplePage.jsx''" warm_host _
        "Inr (result_response r)" h' "''/proj/Button.jsx''" "JObj [(''edited'', JBool False)]",
     unfolded p]
  from t f have 1: "evict dependent_project (require_cache warm_host) ''/proj/SamplePage.jsx'' ''/proj/SamplePage.jsx'' = None"
    by blast
  from t f have "load_component dependent_project (require_cache warm_host) sample_request =
           (case load_module ((require_cache warm_host)(''/proj/SamplePage.jsx'' := None)) ''/proj/SamplePage.jsx''
                   (module_source dependent_project ''/proj/SamplePage.jsx'') of
              (Inl e, c2) \<Rightarrow> (Inl e, c2)
            | (Inr componentModule, c2) \<Rightarrow>
                (case js_get componentModule ''default'' of
                   Inl e \<Rightarrow> (Inl e, c2)
                 | Inr d \<Rightarrow>
                     if typeof (js_or d componentModule) \<noteq> ''function''
                     then (Inl (not_a_component (pagePath sample_request) (js_or d componentModule)), c2)
                     else (Inr (js_or d componentModule), c2)))"
    by blast
  then have 2: "fst (load_component dependent_project (require_cache warm_host) sample_request) = Inr SamplePage"
    unfolding dependent_load by (simp add: lookup_own_def js_or_def SamplePage_def)
  from t f b run have 3: "require_cache h' ''/proj/Button.jsx'' = Some (JObj [(''edited'', JBool False)])"
    by simp
  from 1 2 3 s run fresh show ?thesis by blast
qed

section \<open>Environment wrapping: the theme\<close>

lemma probe_theme_first:
  "all_fail w c pre = Some c1 \<Longrightarrow> try_theme_location w c1 loc = (Some v, c2)
     \<Longrightarrow> probe_theme w c (pre @ loc # post) = (v, c2)"
proof (induction pre arbitrary: c)
  case Nil
  then show ?case by simp
next
  case (Cons a pre)
  then show ?case by (auto split: prod.splits option.splits)
qed

lemma probe_theme_none:
  "all_fail w c locs = Some c1 \<Longrightarrow> probe_theme w c locs = (JUndefined, c1)"
proof (induction locs arbitrary: c)
  case Nil
  then show ?case by simp
next
  case (Cons a locs)
  then show ?case by (auto split: prod.splits option.splits)
qed

lemmas project_defs = sample_project_def mui_project_def themed_project_def falsy_theme_project_def
  mui_styles_path_def mui_styles_def createTheme_fn_def ThemeProvider_fn_def default_theme_def
  project_theme_def themeLocations_def try_theme_location_def select_theme_def js_call_def

lemma themed_first: "all_fail themed_project Map.empty [''src/theme.jsx''] = Some Map.empty"
  by (simp add: project_defs require_def)

lemma themed_load:
  "require themed_project Map.empty (path_resolve themed_project (cwd themed_project) ''src/theme.js'')
     = (Inr (JObj [(''__esModule'', JBool True), (''default'', project_theme)]),
        [''/proj/src/theme.js'' \<mapsto> JObj [(''__esModule'', JBool True), (''default'', project_theme)]])"
  by (simp add: project_defs require_def)

lemma themed_mui:
  "require_resolve_from themed_project ''@mui/material/styles'' (cwd themed_project) = Inr mui_styles_path
   \<and> require themed_project Map.empty mui_styles_path = (Inr mui_styles, [mui_styles_path \<mapsto> mui_styles])
   \<and> js_get mui_styles ''ThemeProvider'' = Inr ThemeProvider_fn
   \<and> js_get mui_styles ''createTheme'' = Inr createTheme_fn"
  by (simp add: project_defs require_def lookup_own_def)

lemma themed_select:
  "select_theme themed_project [mui_styles_path \<mapsto> mui_styles] createTheme_fn
     = (Inr project_theme,
        [mui_styles_path \<mapsto> mui_styles,
         ''/proj/src/theme.js'' \<mapsto> JObj [(''__esModule'', JBool True), (''default'', project_theme)]])"
  by (simp add: project_defs require_def js_or_def lookup_own_def)

lemma mui_none: "all_fail mui_project Map.empty themeLocations = Some Map.empty"
  by (simp add: project_defs require_def)

text \<open>
  C8, as the code has it. The four locations \<open>src/theme.jsx\<close>, \<open>src/theme.js\<close>,
  \<open>src/theme.tsx\<close>, \<open>src/theme.ts\<close> are probed in this order, and the loop stops at the
  first whose module loads and whose \<open>default\<close> can be read. The value read there
  (\<open>default\<close>, or the module itself) is the theme when it is truthy; when it is falsy, or
  when no location yields a module, the theme is what \<open>createTheme()\<close> returns. With the
  provider loaded, that theme is the \<open>theme\<close> prop of the \<open>ThemeProvider\<close> wrapped around
  the element.
\<close>

theorem theme_is_first_found_or_default:
  "themeLocations = [''src/theme.jsx'', ''src/theme.js'', ''src/theme.tsx'', ''src/theme.ts'']
   \<and> (themeLocations = pre @ loc # post \<and> all_fail w c pre = Some c1
        \<and> require w c1 (path_resolve w (cwd w) loc) = (Inr themeModule, c2)
        \<and> js_get themeModule ''default'' = Inr d \<longrightarrow>
      select_theme w c createTheme
        = (if truthy (js_or d themeModule) then Inr (js_or d themeModule)
           else js_call w ''createTheme'' createTheme, c2))
   \<and> (all_fail w c themeLocations = Some c1 \<longrightarrow>
      select_theme w c createTheme = (js_call w ''createTheme'' createTheme, c1))
   \<and> (require_resolve_from w ''@mui/material/styles'' (cwd w) = Inr muiPath
        \<and> require w c muiPath = (Inr mui, c0)
        \<and> js_get mui ''ThemeProvider'' = Inr ThemeProvider
        \<and> js_get mui ''createTheme'' = Inr createTheme
        \<and> select_theme w c0 createTheme = (Inr theme, c3) \<longrightarrow>
      wrap_theme w c element = (Element ThemeProvider [(''theme'', theme)] (Some element), c3))"
proof (intro conjI impI)
  show "themeLocations = [''src/theme.jsx'', ''src/theme.js'', ''src/theme.tsx'', ''src/theme.ts'']"
    by (simp add: themeLocations_def)
next
  assume a: "themeLocations = pre @ loc # post \<and> all_fail w c pre = Some c1
        \<and> require w c1 (path_resolve w (cwd w) loc) = (Inr themeModule, c2)
        \<and> js_get themeModule ''default'' = Inr d"
  then have "try_theme_location w c1 loc = (Some (js_or d themeModule), c2)"
    by (simp add: try_theme_location_def)
  with a have "probe_theme w c (pre @ loc # post) = (js_or d themeModule, c2)"
    using probe_theme_first by blast
  with a have "probe_theme w c themeLocations = (js_or d themeModule, c2)"
    by metis
  then show "select_theme w c createTheme
        = (if truthy (js_or d themeModule) then Inr (js_or d themeModule)
           else js_call w ''createTheme'' createTheme, c2)"
    by (simp add: select_theme_def)
next
  assume "all_fail w c themeLocations = Some c1"
  then have "probe_theme w c themeLocations = (JUndefined, c1)" by (rule probe_theme_none)
  then show "select_theme w c createTheme = (js_call w ''createTheme'' createTheme, c1)"
    by (simp add: select_theme_def)
next
  assume "require_resolve_from w ''@mui/material/styles'' (cwd w) = Inr muiPath
        \<and> require w c muiPath = (Inr mui, c0)
        \<and> js_get mui ''ThemeProvider'' = Inr ThemeProvider
        \<and> js_get mui ''createTheme'' = Inr createTheme
        \<and> select_theme w c0 createTheme = (Inr theme, c3)"
  then show "wrap_theme w c element = (Element ThemeProvider [(''theme'', theme)] (Some element), c3)"
    by (simp add: wrap_theme_def)
qed

theorem theme_is_first_found_or_default_witness:
  "fst (select_theme themed_project Map.empty createTheme_fn) = Inr project_theme
   \<and> fst (select_theme mui_project Map.empty createTheme_fn) = Inr default_theme
   \<and> fst (wrap_theme themed_project Map.empty (Element SamplePage [] None))
       = Element ThemeProvider_fn [(''theme'', project_theme)] (Some (Element SamplePage [] None))"
proof -
  note t = theme_is_first_found_or_default
  have loc: "themeLocations = [''src/theme.jsx''] @ ''src/theme.js'' # [''src/theme.tsx'', ''src/theme.ts'']"
    by (simp add: themeLocations_def)
  have d: "js_get (JObj [(''__esModule'', JBool True), (''default'', project_theme)]) ''default''
             = Inr project_theme"
    by (simp add: lookup_own_def)
  from t [of "[''src/theme.jsx'']" "''src/theme.js''" "[''src/theme.tsx'', ''src/theme.ts'']"
            themed_project Map.empty Map.empty
            "JObj [(''__esModule'', JBool True), (''default'', project_theme)]" _ project_theme createTheme_fn]
    loc themed_first themed_load d
  have 1: "fst (select_theme themed_project Map.empty createTheme_fn) = Inr project_theme"
    by (simp add: js_or_def project_theme_def)
  from t [of _ _ _ mui_project Map.empty Map.empty _ _ _ createTheme_fn] mui_none
  have 2: "fst (select_theme mui_project Map.empty createTheme_fn) = Inr default_theme"
    by (simp add: project_defs)
  from t [of _ _ _ themed_project Map.empty _ _ _ _ createTheme_fn mui_styles_path mui_styles
            "[mui_styles_path \<mapsto> mui_styles]" ThemeProvider_fn project_theme _ "Element SamplePage [] None"]
    themed_mui themed_select
  have 3: "fst (wrap_theme themed_project Map.empty (Element SamplePage [] None))
       = Element ThemeProvider_fn [(''theme'', project_theme)] (Some (Element SamplePage [] None))"
    by simp
  from 1 2 3 show ?thesis by simp
qed

text \<open>
  The claim as stated fails where the first theme file that loads exports a falsy value:
  \<open>src/theme.jsx\<close> loads and yields 0, the loop stops there, and the theme used is the
  default one.
\<close>

theorem falsy_theme_export_counterexample:
  "fst (require falsy_theme_project Map.empty ''/proj/src/theme.jsx'') = Inr (JNum 0)
   \<and> fst (select_theme falsy_theme_project Map.empty createTheme_fn) = Inr default_theme
   \<and> fst (select_theme falsy_theme_project Map.empty createTheme_fn) \<noteq> Inr (JNum 0)"
  by (simp add: project_defs require_def js_or_def lookup_own_def)

section \<open>Environment wrapping: absent providers\<close>





section \<open>Missing props\<close>

lemma set_own_keys: "set (own_keys kvs) = set (map fst kvs)"
  by (auto simp: own_keys_def)

lemma detect_missing_member:
  "k \<in> set (detect_missing (JObj decls) ps) \<longleftrightarrow> k \<in> set (map fst decls) \<and> \<not> js_in k ps"
  by (simp add: detect_missing_def set_own_keys)

lemma own_keys_plain:
  "\<forall>k \<in> set (map fst kvs). \<not> is_array_index k \<Longrightarrow> own_keys kvs = map fst kvs"
proof -
  assume a: "\<forall>k \<in> set (map fst kvs). \<not> is_array_index k"
  then have "filter is_array_index (map fst kvs) = []"
    by (simp add: filter_empty_conv)
  moreover from a have "filter (\<lambda>k. \<not> is_array_index k) (map fst kvs) = map fst kvs"
    by (simp add: filter_id_conv)
  ultimately show ?thesis by (simp add: own_keys_def)
qed

text \<open>
  C2. The handler reports every name the component's \<open>propTypes\<close> declare that the
  supplied props lack, whatever the validator of the declaration, although its own
  comment says it checks which required props were not provided. On the repository's
  sample, whose two props are declared with the optional validator, a request without
  props is told that \<open>title\<close> and \<open>username\<close> are missing; the declared required props
  that are absent are none, and the field should not be there.
\<close>

theorem optional_props_are_reported:
  "map_option missingProps (report_of (accessibilityCheck sample_project sample_request fresh_host))
     = Some (Some [''title'', ''username''])
   \<and> required_and_absent SamplePage_propTypes [] = []
   \<and> map_option missingProps (report_of (accessibilityCheck sample_project sample_request fresh_host))
       \<noteq> Some (if required_and_absent SamplePage_propTypes [] = [] then None
                else Some (required_and_absent SamplePage_propTypes []))"
  by (simp add: eval_defs sample_project_def Let_def required_and_absent_def)

text \<open>
  C10. A request without props gets the default \<open>{}\<close>, and a declared name is reported
  unless \<open>propName in props\<close> holds. For \<open>{}\<close> that still holds of every name that
  \<open>Object.prototype\<close> defines: of the declared \<open>title\<close> and \<open>toString\<close>, only \<open>title\<close> is
  reported.
\<close>

theorem inherited_name_not_reported:
  "map_option missingProps (report_of (accessibilityCheck formatter_project sample_request fresh_host))
     = Some (Some [''title''])"
  by (simp add: eval_defs sample_project_def formatter_project_def Formatter_def Let_def)

end
